theory Spec2Isabelle
  imports Main
begin

section \<open>Go library functions used by package gfwlist\<close>

text \<open>
  Strings are byte sequences, as Go's \<open>string\<close> is; \<open>length\<close> is Go's \<open>len\<close>.
  The functions of package \<open>strings\<close> that the code calls are written out. The
  separator of \<open>strings.Split\<close> is a single byte at its only call site, so the model
  takes a character.
\<close>

definition strings_HasPrefix :: "string \<Rightarrow> string \<Rightarrow> bool" where
  "strings_HasPrefix s pre = (length pre \<le> length s \<and> take (length pre) s = pre)"

definition strings_HasSuffix :: "string \<Rightarrow> string \<Rightarrow> bool" where
  "strings_HasSuffix s suf = (length suf \<le> length s \<and> drop (length s - length suf) s = suf)"

fun strings_Contains :: "string \<Rightarrow> string \<Rightarrow> bool" where
  "strings_Contains [] substr = (substr = [])"
| "strings_Contains (c # s) substr =
     (strings_HasPrefix (c # s) substr \<or> strings_Contains s substr)"

fun strings_Split :: "string \<Rightarrow> char \<Rightarrow> string list" where
  "strings_Split [] sep = [[]]"
| "strings_Split (c # s) sep =
     (if c = sep then [] # strings_Split s sep
      else (case strings_Split s sep of
              [] \<Rightarrow> [[c]]
            | w # ws \<Rightarrow> (c # w) # ws))"

text \<open>
  \<open>net/url\<close>: the fields of \<open>url.URL\<close>. Parsing and printing a URL, compiling a
  regular expression, \<open>net.SplitHostPort\<close> and \<open>strings.TrimSpace\<close> belong to Go's
  library, not to this package: they are parameters of the model, collected in one
  record. \<open>url_Parse\<close> returns the error text on the left. \<open>regexp_Compile\<close> returns
  the error text or the compiled expression as its matching predicate.
  \<open>net_SplitHostPort\<close> returns Go's triple (host, port, err).
\<close>

record Userinfo =
  username :: string
  password :: string
  passwordSet :: bool

record URL =
  Scheme :: string
  Opaque :: string
  User :: "Userinfo option"
  Host :: string
  Path :: string
  RawPath :: string
  OmitHost :: bool
  ForceQuery :: bool
  RawQuery :: string
  Fragment :: string
  RawFragment :: string

record stdlib =
  url_Parse :: "string \<Rightarrow> string + URL"
  url_String :: "URL \<Rightarrow> string"
  regexp_Compile :: "string \<Rightarrow> string + (string \<Rightarrow> bool)"
  net_SplitHostPort :: "string \<Rightarrow> string \<times> string \<times> string option"
  strings_TrimSpace :: "string \<Rightarrow> string"

text \<open>
  \<open>regexp.MatchString\<close> of Go's library compiles the pattern and, when that fails,
  returns \<open>false\<close> together with the error.
\<close>

definition regexp_MatchString :: "stdlib \<Rightarrow> string \<Rightarrow> string \<Rightarrow> bool \<times> string option" where
  "regexp_MatchString E pattern s =
     (case regexp_Compile E pattern of
        Inl err \<Rightarrow> (False, Some err)
      | Inr re \<Rightarrow> (re s, None))"

section \<open>Rules\<close>

text \<open>
  The four implementations of interface \<open>gfwListRule\<close>. \<open>urlWildcardRule\<close> carries its
  \<open>prefixMatch\<close> flag; \<open>whiteListRule\<close> wraps any rule.
\<close>

datatype gfwListRule =
    HostWildcardRule string
  | UrlWildcardRule string bool
  | RegexRule string
  | WhiteListRule gfwListRule

text \<open>The type assertion \<open>rule.(*whiteListRule)\<close>.\<close>

fun isWhiteListRule :: "gfwListRule \<Rightarrow> bool" where
  "isWhiteListRule (WhiteListRule r) = True"
| "isWhiteListRule r = False"

text \<open>
  \<open>match\<close> receives a pointer to the URL and may assign its scheme, and
  \<open>regexRule.match\<close> writes to the error log. The model returns the result, the URL
  as \<open>match\<close> leaves it, and the lines logged.
\<close>

definition invalidRegexMessage :: "string \<Rightarrow> string \<Rightarrow> string" where
  "invalidRegexMessage pattern err =
     ''Invalid regex pattern: '' @ pattern @ '' width reason: '' @ err"

fun match :: "stdlib \<Rightarrow> gfwListRule \<Rightarrow> URL \<Rightarrow> bool \<times> URL \<times> string list" where
  "match E (HostWildcardRule pattern) u =
     (if strings_Contains (Host u) pattern then (True, u, []) else (False, u, []))"
| "match E (UrlWildcardRule pattern prefixMatch) u =
     (let u1 = (if length (Scheme u) = 0 then u\<lparr>Scheme := ''https''\<rparr> else u) in
      if prefixMatch then (strings_HasPrefix (url_String E u1) pattern, u1, [])
      else (strings_Contains (url_String E u1) pattern, u1, []))"
| "match E (RegexRule pattern) u =
     (let u1 = (if length (Scheme u) = 0 then u\<lparr>Scheme := ''https''\<rparr> else u) in
      case regexp_MatchString E pattern (url_String E u1) of
        (matched, Some err) \<Rightarrow> (matched, u1, [invalidRegexMessage pattern err])
      | (matched, None) \<Rightarrow> (matched, u1, []))"
| "match E (WhiteListRule r) u = match E r u"

section \<open>The rule set and the query\<close>

record GFWList =
  fetchURL :: string
  ruleMap :: "string \<rightharpoonup> gfwListRule"
  ruleList :: "gfwListRule list"

text \<open>
  \<open>fastMatchDomain\<close>, in the order of the source. \<open>stripPort\<close> is the host with its
  port removed (the first result of \<open>net.SplitHostPort\<close>, whatever its error).
  \<open>rootDomainOf\<close> is the value of \<open>rootDomain\<close> after the split on dots.
  \<open>lookupRule\<close> is the pair \<open>rule, exist\<close> before the final test.
\<close>

definition stripPort :: "stdlib \<Rightarrow> string \<Rightarrow> string" where
  "stripPort E host =
     (if strings_Contains host '':'' then fst (net_SplitHostPort E host) else host)"

definition rootDomainOf :: "string \<Rightarrow> string" where
  "rootDomainOf domain =
     (let ss = strings_Split domain (CHR ''.'') in
      if length ss > 2 then
        (let rootDomain = ss ! (length ss - 2) @ ''.'' @ ss ! (length ss - 1) in
         if length (ss ! (length ss - 2)) < 4 \<and> length ss \<ge> 3
         then ss ! (length ss - 3) @ ''.'' @ rootDomain
         else rootDomain)
      else domain)"

definition lookupRule :: "stdlib \<Rightarrow> GFWList \<Rightarrow> URL \<Rightarrow> gfwListRule option" where
  "lookupRule E gfw u =
     (let domain = stripPort E (Host u) in
      case ruleMap gfw domain of
        Some rule \<Rightarrow> Some rule
      | None \<Rightarrow> ruleMap gfw (rootDomainOf domain))"

definition fastMatchDomain ::
  "stdlib \<Rightarrow> GFWList \<Rightarrow> URL \<Rightarrow> (bool \<times> bool) \<times> URL \<times> string list" where
  "fastMatchDomain E gfw u =
     (case lookupRule E gfw u of
        Some rule \<Rightarrow>
          (case match E rule u of
             (matched, u', logged) \<Rightarrow>
               if isWhiteListRule rule then ((\<not> matched, True), u', logged)
               else ((matched, True), u', logged))
      | None \<Rightarrow> ((False, False), u, []))"

text \<open>The loop over \<open>ruleList\<close> in \<open>IsBlockedByGFW\<close>.\<close>

fun scanRuleList ::
  "stdlib \<Rightarrow> gfwListRule list \<Rightarrow> URL \<Rightarrow> string list \<Rightarrow> bool \<times> string list" where
  "scanRuleList E [] u logged = (False, logged)"
| "scanRuleList E (rule # rules) u logged =
     (case match E rule u of
        (matched, u', logged') \<Rightarrow>
          if matched then
            (if isWhiteListRule rule then (False, logged @ logged')
             else (True, logged @ logged'))
          else scanRuleList E rules u' (logged @ logged'))"

text \<open>\<open>IsBlockedByGFW\<close>: the answer and the lines logged while computing it.\<close>

definition IsBlockedByGFW :: "stdlib \<Rightarrow> GFWList \<Rightarrow> string \<Rightarrow> bool \<times> string list" where
  "IsBlockedByGFW E gfw host =
     (case url_Parse E host of
        Inl err \<Rightarrow> (False, [])
      | Inr u \<Rightarrow>
          (case fastMatchDomain E gfw u of
             ((fastMatchResult, exist), u', logged) \<Rightarrow>
               if exist then (fastMatchResult, logged)
               else scanRuleList E (ruleList gfw) u' logged))"

section \<open>The parser\<close>

text \<open>
  The loop of \<open>fetchGFWList\<close> over the lines that \<open>ReadLine\<close> returns. A slice
  expression whose bounds are out of order panics; \<open>str[1 : len(str)-1]\<close> does so on
  the one-byte string \<open>/\<close>.
\<close>

datatype panic = SliceBoundsOutOfRange

text \<open>
  Lines 218 to 239: from \<open>str\<close> (after a leading \<open>@@\<close> is removed) to the final
  \<open>str\<close>, the rule and \<open>fastMatch\<close>.
\<close>

definition buildRule :: "string \<Rightarrow> panic + (string \<times> gfwListRule \<times> bool)" where
  "buildRule str =
     (if strings_HasPrefix str ''/'' \<and> strings_HasSuffix str ''/'' then
        (if length str - 1 < 1 then Inl SliceBoundsOutOfRange
         else (let str' = take (length str - 1 - 1) (drop 1 str)
               in Inr (str', RegexRule str', False)))
      else if strings_HasPrefix str ''||'' then
        (let str' = drop 2 str in Inr (str', HostWildcardRule str', True))
      else if strings_HasPrefix str ''|'' then
        Inr (str, UrlWildcardRule (drop 1 str) True, False)
      else if \<not> strings_Contains str ''/'' then
        (let rule = HostWildcardRule str;
             str' = (if strings_HasPrefix str ''.'' then drop 1 str else str)
         in Inr (str', rule, True))
      else Inr (str, UrlWildcardRule str False, False))"

text \<open>Lines 204 to 247: one turn of the loop on the trimmed line.\<close>

definition processLine :: "string \<Rightarrow> GFWList \<Rightarrow> panic + GFWList" where
  "processLine str gfwList =
     (if length str = 0 \<or> strings_HasPrefix str ''!'' \<or> strings_HasPrefix str ''[''
      then Inr gfwList
      else
        (let isWhileListRule = strings_HasPrefix str ''@@'';
             str1 = (if isWhileListRule then drop 2 str else str)
         in case buildRule str1 of
              Inl p \<Rightarrow> Inl p
            | Inr (str2, rule0, fastMatch) \<Rightarrow>
                (let rule = (if isWhileListRule then WhiteListRule rule0 else rule0)
                 in if fastMatch
                    then Inr (gfwList\<lparr>ruleMap := (ruleMap gfwList)(str2 \<mapsto> rule)\<rparr>)
                    else Inr (gfwList\<lparr>ruleList := ruleList gfwList @ [rule]\<rparr>))))"

fun readLines :: "stdlib \<Rightarrow> string list \<Rightarrow> GFWList \<Rightarrow> panic + GFWList" where
  "readLines E [] gfwList = Inr gfwList"
| "readLines E (line # lines) gfwList =
     (case processLine (strings_TrimSpace E line) gfwList of
        Inl p \<Rightarrow> Inl p
      | Inr gfwList' \<Rightarrow> readLines E lines gfwList')"

text \<open>
  The rule set that \<open>fetchGFWList\<close> builds from the decoded lines: the loop started on
  the empty map and the empty list (the \<open>fetchURL\<close> field is not set there).
\<close>

definition parseGFWList :: "stdlib \<Rightarrow> string list \<Rightarrow> panic + GFWList" where
  "parseGFWList E lines =
     readLines E lines \<lparr>fetchURL = [], ruleMap = Map.empty, ruleList = []\<rparr>"

section \<open>Notions used to state the properties\<close>

text \<open>The \<open>pattern\<close> field of a rule, looked up through a whitelist wrapper.\<close>

fun patternOf :: "gfwListRule \<Rightarrow> string" where
  "patternOf (HostWildcardRule pattern) = pattern"
| "patternOf (UrlWildcardRule pattern prefixMatch) = pattern"
| "patternOf (RegexRule pattern) = pattern"
| "patternOf (WhiteListRule r) = patternOf r"

text \<open>A host rule, bare or wrapped once; a URL or regex rule, bare or wrapped once.\<close>

fun isHostWildcard :: "gfwListRule \<Rightarrow> bool" where
  "isHostWildcard (HostWildcardRule pattern) = True"
| "isHostWildcard (WhiteListRule (HostWildcardRule pattern)) = True"
| "isHostWildcard r = False"

fun isUrlOrRegex :: "gfwListRule \<Rightarrow> bool" where
  "isUrlOrRegex (UrlWildcardRule pattern prefixMatch) = True"
| "isUrlOrRegex (RegexRule pattern) = True"
| "isUrlOrRegex (WhiteListRule (UrlWildcardRule pattern prefixMatch)) = True"
| "isUrlOrRegex (WhiteListRule (RegexRule pattern)) = True"
| "isUrlOrRegex r = False"

text \<open>The text of a line after its optional \<open>@@\<close> is removed (lines 213 to 216).\<close>

definition afterWhitelistMark :: "string \<Rightarrow> string" where
  "afterWhitelistMark str = (if strings_HasPrefix str ''@@'' then drop 2 str else str)"

text \<open>
  The root-domain heuristic in the words of the specification: the labels of the domain
  are its pieces between dots; with more than two labels the candidate is the last two
  labels joined by a dot; when the second-to-last label has fewer than 4 characters and
  there are at least 3 labels it is the last three labels; otherwise the domain stays.
\<close>

fun joinDots :: "string list \<Rightarrow> string" where
  "joinDots [] = []"
| "joinDots [l] = l"
| "joinDots (l # m # ls) = l @ ''.'' @ joinDots (m # ls)"

definition lastLabels :: "nat \<Rightarrow> string list \<Rightarrow> string list" where
  "lastLabels k labels = drop (length labels - k) labels"

definition spec_rootCandidate :: "string \<Rightarrow> string" where
  "spec_rootCandidate domain =
     (let labels = strings_Split domain (CHR ''.'');
          candidate = (if length labels > 2 then joinDots (lastLabels 2 labels) else domain)
      in if length labels \<ge> 3 \<and> length (last (butlast labels)) < 4
         then joinDots (lastLabels 3 labels)
         else candidate)"

section \<open>A sample of the library, for evaluating examples\<close>

text \<open>
  The values of Go's library functions on the inputs of the examples below.
  \<open>sample_Parse\<close> is a table of \<open>url.Parse\<close> (every other input is answered with an
  error, and the error texts are shortened). \<open>sample_String\<close> is \<open>URL.String\<close> for a
  URL that has only a scheme, a host and a path needing no escape.
  \<open>sample_Compile\<close> rejects the unclosed bracket and reads any other pattern as
  literal text, as \<open>regexp.Compile\<close> does for a pattern without metacharacters.
  \<open>sample_SplitHostPort\<close> is a table. \<open>sample_TrimSpace\<close> removes ASCII white
  space at both ends, as \<open>strings.TrimSpace\<close> does on ASCII text.
\<close>

definition simpleURL :: "string \<Rightarrow> string \<Rightarrow> string \<Rightarrow> URL" where
  "simpleURL scheme host path =
     \<lparr>Scheme = scheme, Opaque = [], User = None, Host = host, Path = path, RawPath = [],
      OmitHost = False, ForceQuery = False, RawQuery = [], Fragment = [], RawFragment = []\<rparr>"

definition sample_Parse :: "string \<Rightarrow> string + URL" where
  "sample_Parse s =
     (if s = ''http://sub.safe.example.com''
        then Inr (simpleURL ''http'' ''sub.safe.example.com'' [])
      else if s = ''http://ads.example.com/x''
        then Inr (simpleURL ''http'' ''ads.example.com'' ''/x'')
      else if s = ''http://www.bbc.co.uk''
        then Inr (simpleURL ''http'' ''www.bbc.co.uk'' [])
      else if s = ''//ads.example.com/x''
        then Inr (simpleURL [] ''ads.example.com'' ''/x'')
      else if s = ''example.com''
        then Inr (simpleURL [] [] ''example.com'')
      else Inl ''missing protocol scheme'')"

definition sample_String :: "URL \<Rightarrow> string" where
  "sample_String u = Scheme u @ ''://'' @ Host u @ Path u"

definition sample_Compile :: "string \<Rightarrow> string + (string \<Rightarrow> bool)" where
  "sample_Compile pattern =
     (if pattern = ''[''
      then Inl (''error parsing regexp: missing closing ]: '' @ [CHR 0x60] @ ''['' @ [CHR 0x60])
      else Inr (\<lambda>s. strings_Contains s pattern))"

definition sample_SplitHostPort :: "string \<Rightarrow> string \<times> string \<times> string option" where
  "sample_SplitHostPort hostport =
     (if hostport = ''example.com:8080'' then (''example.com'', ''8080'', None)
      else ([], [], Some ''missing port in address''))"

definition asciiSpace :: "char \<Rightarrow> bool" where
  "asciiSpace c = (c \<in> set [CHR 0x09, CHR 0x0A, CHR 0x0B, CHR 0x0C, CHR 0x0D, CHR 0x20])"

definition sample_TrimSpace :: "string \<Rightarrow> string" where
  "sample_TrimSpace s = rev (dropWhile asciiSpace (rev (dropWhile asciiSpace s)))"

definition sampleLib :: stdlib where
  "sampleLib =
     \<lparr>url_Parse = sample_Parse, url_String = sample_String,
      regexp_Compile = sample_Compile, net_SplitHostPort = sample_SplitHostPort,
      strings_TrimSpace = sample_TrimSpace\<rparr>"

section \<open>Facts about the library functions\<close>

lemma strings_HasPrefix_Nil [simp]: "strings_HasPrefix s []"
  by (simp add: strings_HasPrefix_def)

lemma strings_Contains_Nil [simp]: "strings_Contains s []"
  by (cases s) simp_all

lemma strings_HasPrefix_iff: "strings_HasPrefix s pre \<longleftrightarrow> (\<exists>t. s = pre @ t)"
proof
  assume "strings_HasPrefix s pre"
  then have "s = pre @ drop (length pre) s"
    by (metis append_take_drop_id strings_HasPrefix_def)
  then show "\<exists>t. s = pre @ t" ..
next
  assume "\<exists>t. s = pre @ t"
  then show "strings_HasPrefix s pre"
    by (auto simp: strings_HasPrefix_def)
qed

lemma strings_Contains_iff:
  "strings_Contains s substr \<longleftrightarrow> (\<exists>before after. s = before @ substr @ after)"
proof (induction s)
  case Nil
  then show ?case by auto
next
  case (Cons c s)
  show ?case
  proof
    assume "strings_Contains (c # s) substr"
    then consider "strings_HasPrefix (c # s) substr" | "strings_Contains s substr"
      by auto
    then show "\<exists>before after. c # s = before @ substr @ after"
    proof cases
      case 1
      then obtain t where "c # s = substr @ t"
        by (auto simp: strings_HasPrefix_iff)
      then have "c # s = [] @ substr @ t" by simp
      then show ?thesis by blast
    next
      case 2
      then obtain b a where "s = b @ substr @ a"
        using Cons.IH by auto
      then have "c # s = (c # b) @ substr @ a" by simp
      then show ?thesis by blast
    qed
  next
    assume "\<exists>before after. c # s = before @ substr @ after"
    then obtain b a where ba: "c # s = b @ substr @ a" by auto
    show "strings_Contains (c # s) substr"
    proof (cases b)
      case Nil
      with ba have "strings_HasPrefix (c # s) substr"
        by (auto simp: strings_HasPrefix_iff)
      then show ?thesis by simp
    next
      case (Cons b0 bs)
      with ba have "s = bs @ substr @ a" by simp
      then have "strings_Contains s substr"
        using Cons.IH by blast
      then show ?thesis by simp
    qed
  qed
qed

lemma strings_HasPrefix_Contains:
  "strings_HasPrefix s pre \<Longrightarrow> strings_Contains s pre"
  by (cases s) (simp_all add: strings_HasPrefix_def)

subsection \<open>The last labels of a split\<close>

lemma last_two_nth:
  assumes "2 \<le> length xs"
  shows "drop (length xs - 2) xs = [xs ! (length xs - 2), xs ! (length xs - 1)]"
proof (cases xs rule: rev_cases)
  case Nil
  with assms show ?thesis by simp
next
  case (snoc ys b)
  show ?thesis
  proof (cases ys rule: rev_cases)
    case Nil
    with snoc assms show ?thesis by simp
  next
    case (snoc zs a)
    with \<open>xs = ys @ [b]\<close> show ?thesis by (simp add: nth_append)
  qed
qed

lemma last_three_nth:
  assumes "3 \<le> length xs"
  shows "drop (length xs - 3) xs =
           [xs ! (length xs - 3), xs ! (length xs - 2), xs ! (length xs - 1)]"
proof (cases xs rule: rev_cases)
  case Nil
  with assms show ?thesis by simp
next
  case (snoc ys c)
  note xs = this
  show ?thesis
  proof (cases ys rule: rev_cases)
    case Nil
    with xs assms show ?thesis by simp
  next
    case (snoc zs b)
    note ys = this
    show ?thesis
    proof (cases zs rule: rev_cases)
      case Nil
      with xs ys assms show ?thesis by simp
    next
      case (snoc ws a)
      with xs ys show ?thesis by (simp add: nth_append)
    qed
  qed
qed

lemma second_to_last_nth:
  assumes "2 \<le> length xs"
  shows "last (butlast xs) = xs ! (length xs - 2)"
proof -
  have "butlast xs \<noteq> []" using assms by (cases xs rule: rev_cases) auto
  then have "last (butlast xs) = butlast xs ! (length (butlast xs) - 1)"
    by (rule last_conv_nth)
  also have "\<dots> = xs ! (length xs - 2)"
    using assms by (simp add: nth_butlast numeral_2_eq_2)
  finally show ?thesis .
qed

lemma rootDomainOf_spec: "rootDomainOf domain = spec_rootCandidate domain"
proof -
  let ?ss = "strings_Split domain (CHR ''.'')"
  show ?thesis
  proof (cases "2 < length ?ss")
    case True
    then have l2: "2 \<le> length ?ss" and l3: "3 \<le> length ?ss" by simp_all
    show ?thesis
      using True l3
      by (simp add: rootDomainOf_def spec_rootCandidate_def Let_def lastLabels_def
          last_two_nth [OF l2] last_three_nth [OF l3] second_to_last_nth [OF l2])
  next
    case False
    then show ?thesis
      by (simp add: rootDomainOf_def spec_rootCandidate_def Let_def)
  qed
qed

section \<open>Facts about match\<close>

lemma lookupRule_ruleList:
  "lookupRule E (gfw\<lparr>ruleList := rl\<rparr>) u = lookupRule E gfw u"
  by (simp add: lookupRule_def Let_def split: option.splits)

text \<open>The URL that \<open>match\<close> leaves behind is the argument, or the argument with its empty
  scheme set to https.\<close>

lemma match_url_cases:
  "fst (snd (match E r u)) = u \<or>
   (Scheme u = [] \<and> fst (snd (match E r u)) = u\<lparr>Scheme := ''https''\<rparr>)"
  by (induction r) (auto simp: Let_def split: prod.splits option.splits)

lemma match_result_default_scheme:
  "Scheme u = [] \<Longrightarrow>
     fst (match E r (u\<lparr>Scheme := ''https''\<rparr>)) = fst (match E r u)"
  by (induction r) (auto simp: Let_def split: prod.splits option.splits)

lemma scanRuleList_find:
  "fst (scanRuleList E rules u logged) =
     (case find (\<lambda>r. fst (match E r u)) rules of
        None \<Rightarrow> False
      | Some r \<Rightarrow> \<not> isWhiteListRule r)"
proof (induction rules arbitrary: u logged)
  case Nil
  show ?case by simp
next
  case (Cons rule rules)
  obtain m u' lg where m: "match E rule u = (m, u', lg)"
    by (cases "match E rule u") auto
  show ?case
  proof (cases m)
    case True
    with m show ?thesis by simp
  next
    case False
    have "u' = u \<or> (Scheme u = [] \<and> u' = u\<lparr>Scheme := ''https''\<rparr>)"
      using match_url_cases [of E rule u] m by simp
    then have same: "(\<lambda>r. fst (match E r u')) = (\<lambda>r. fst (match E r u))"
      by (auto simp: match_result_default_scheme)
    have "fst (scanRuleList E (rule # rules) u logged) =
            fst (scanRuleList E rules u' (logged @ lg))"
      using m False by simp
    also have "\<dots> = (case find (\<lambda>r. fst (match E r u')) rules of
                        None \<Rightarrow> False | Some r \<Rightarrow> \<not> isWhiteListRule r)"
      by (rule Cons.IH)
    finally show ?thesis
      using m False by (simp add: same)
  qed
qed

section \<open>Facts about the parser\<close>

lemma buildRule_cases:
  assumes "buildRule s = Inr (key, rule, fast)"
  shows "(fast \<and> strings_HasPrefix s ''||'' \<and> key = drop 2 s \<and>
            rule = HostWildcardRule (drop 2 s)) \<or>
         (fast \<and> \<not> strings_HasPrefix s ''|'' \<and> \<not> strings_Contains s ''/'' \<and>
            key = (if strings_HasPrefix s ''.'' then drop 1 s else s) \<and>
            rule = HostWildcardRule s) \<or>
         (\<not> fast \<and> (\<exists>p b. rule = UrlWildcardRule p b \<or> rule = RegexRule p))"
proof -
  have "strings_HasPrefix s ''||'' \<Longrightarrow> strings_HasPrefix s ''|''"
    by (auto simp: strings_HasPrefix_iff)
  then show ?thesis
    using assms
    by (auto simp: buildRule_def Let_def split: if_splits)
qed


lemma strings_HasPrefix_drop:
  "strings_HasPrefix s pre \<Longrightarrow> pre @ drop (length pre) s = s"
  by (metis append_take_drop_id strings_HasPrefix_def)

text \<open>One turn of the loop: what it adds to the map and to the list.\<close>

lemma processLine_step:
  assumes "processLine str g = Inr g'"
  shows "(\<forall>key rule. ruleMap g' key = Some rule \<longrightarrow>
            ruleMap g key = Some rule \<or>
            (isHostWildcard rule \<and>
             (strings_Contains (patternOf rule) ''/'' \<longrightarrow>
                afterWhitelistMark str = ''||'' @ patternOf rule))) \<and>
         (\<forall>rule \<in> set (ruleList g'). rule \<in> set (ruleList g) \<or> isUrlOrRegex rule)"
proof (cases "length str = 0 \<or> strings_HasPrefix str ''!'' \<or> strings_HasPrefix str ''[''")
  case True
  with assms have "g' = g" by (simp add: processLine_def)
  then show ?thesis by simp
next
  case False
  let ?s = "afterWhitelistMark str"
  from False assms obtain key rule0 fast where b: "buildRule ?s = Inr (key, rule0, fast)"
    by (auto simp: processLine_def afterWhitelistMark_def Let_def split: sum.splits)
  let ?rule = "if strings_HasPrefix str ''@@'' then WhiteListRule rule0 else rule0"
  have g': "g' = (if fast then g\<lparr>ruleMap := (ruleMap g)(key \<mapsto> ?rule)\<rparr>
                  else g\<lparr>ruleList := ruleList g @ [?rule]\<rparr>)"
    using False assms b by (auto simp: processLine_def afterWhitelistMark_def Let_def)
  have pre: "strings_HasPrefix ?s ''||'' \<Longrightarrow> ''||'' @ drop 2 ?s = ?s"
    using strings_HasPrefix_drop [of ?s "''||''"] by (simp add: numeral_2_eq_2)
  from buildRule_cases [OF b] show ?thesis
    using g' pre by (auto split: if_splits)
qed

lemma readLines_invariant:
  assumes "readLines E lines g = Inr g'"
    and "\<forall>key rule. ruleMap g key = Some rule \<longrightarrow>
            isHostWildcard rule \<and>
            (strings_Contains (patternOf rule) ''/'' \<longrightarrow>
               (\<exists>line \<in> S. afterWhitelistMark (strings_TrimSpace E line) = ''||'' @ patternOf rule))"
    and "\<forall>rule \<in> set (ruleList g). isUrlOrRegex rule"
  shows "(\<forall>key rule. ruleMap g' key = Some rule \<longrightarrow>
            isHostWildcard rule \<and>
            (strings_Contains (patternOf rule) ''/'' \<longrightarrow>
               (\<exists>line \<in> S \<union> set lines.
                  afterWhitelistMark (strings_TrimSpace E line) = ''||'' @ patternOf rule))) \<and>
         (\<forall>rule \<in> set (ruleList g'). isUrlOrRegex rule)"
  using assms
proof (induction lines arbitrary: g S)
  case Nil
  then show ?case by simp
next
  case (Cons line lines)
  from Cons.prems(1) obtain g1 where
    step: "processLine (strings_TrimSpace E line) g = Inr g1" and
    rest: "readLines E lines g1 = Inr g'"
    by (auto split: sum.splits)
  note st = processLine_step [OF step]
  have m1: "\<forall>key rule. ruleMap g1 key = Some rule \<longrightarrow>
            isHostWildcard rule \<and>
            (strings_Contains (patternOf rule) ''/'' \<longrightarrow>
               (\<exists>l \<in> insert line S.
                  afterWhitelistMark (strings_TrimSpace E l) = ''||'' @ patternOf rule))"
  proof (intro allI impI)
    fix key rule
    assume "ruleMap g1 key = Some rule"
    with st consider "ruleMap g key = Some rule"
      | "isHostWildcard rule \<and>
           (strings_Contains (patternOf rule) ''/'' \<longrightarrow>
              afterWhitelistMark (strings_TrimSpace E line) = ''||'' @ patternOf rule)"
      by blast
    then show "isHostWildcard rule \<and>
            (strings_Contains (patternOf rule) ''/'' \<longrightarrow>
               (\<exists>l \<in> insert line S.
                  afterWhitelistMark (strings_TrimSpace E l) = ''||'' @ patternOf rule))"
    proof cases
      case 1
      with Cons.prems(2) show ?thesis by blast
    next
      case 2
      then show ?thesis by blast
    qed
  qed
  have l1: "\<forall>rule \<in> set (ruleList g1). isUrlOrRegex rule"
    using st Cons.prems(3) by blast
  have "insert line S \<union> set lines = S \<union> set (line # lines)" by auto
  with Cons.IH [OF rest m1 l1] show ?case by simp
qed

lemma parsed_ruleset_invariant:
  assumes "parseGFWList E lines = Inr gfw"
  shows "(\<forall>key rule. ruleMap gfw key = Some rule \<longrightarrow>
            isHostWildcard rule \<and>
            (strings_Contains (patternOf rule) ''/'' \<longrightarrow>
               (\<exists>line \<in> set lines.
                  afterWhitelistMark (strings_TrimSpace E line) = ''||'' @ patternOf rule))) \<and>
         (\<forall>rule \<in> set (ruleList gfw). isUrlOrRegex rule)"
proof -
  let ?g0 = "\<lparr>fetchURL = [], ruleMap = Map.empty, ruleList = []\<rparr>"
  have r: "readLines E lines ?g0 = Inr gfw"
    using assms by (simp add: parseGFWList_def)
  have "(\<forall>key rule. ruleMap gfw key = Some rule \<longrightarrow>
            isHostWildcard rule \<and>
            (strings_Contains (patternOf rule) ''/'' \<longrightarrow>
               (\<exists>line \<in> {} \<union> set lines.
                  afterWhitelistMark (strings_TrimSpace E line) = ''||'' @ patternOf rule))) \<and>
         (\<forall>rule \<in> set (ruleList gfw). isUrlOrRegex rule)"
    by (rule readLines_invariant [OF r]) simp_all
  then show ?thesis by simp
qed

lemma processLine_anchored:
  assumes "length str \<noteq> 0" "\<not> strings_HasPrefix str ''!''" "\<not> strings_HasPrefix str ''[''"
    and "strings_HasPrefix (afterWhitelistMark str) ''||''"
  shows "processLine str g =
           Inr (g\<lparr>ruleMap := (ruleMap g)(drop 2 (afterWhitelistMark str) \<mapsto>
                  (if strings_HasPrefix str ''@@''
                   then WhiteListRule (HostWildcardRule (drop 2 (afterWhitelistMark str)))
                   else HostWildcardRule (drop 2 (afterWhitelistMark str))))\<rparr>)"
proof -
  have "\<not> strings_HasPrefix (afterWhitelistMark str) ''/''"
    using assms(4) by (auto simp: strings_HasPrefix_iff)
  then have "buildRule (afterWhitelistMark str) =
      Inr (drop 2 (afterWhitelistMark str), HostWildcardRule (drop 2 (afterWhitelistMark str)), True)"
    using assms(4) by (simp add: buildRule_def Let_def)
  then show ?thesis
    using assms(1-3) by (simp add: processLine_def afterWhitelistMark_def Let_def)
qed

lemma processLine_with_path:
  assumes "length str \<noteq> 0" "\<not> strings_HasPrefix str ''!''" "\<not> strings_HasPrefix str ''[''"
    and "\<not> strings_HasPrefix (afterWhitelistMark str) ''|''"
    and "strings_Contains (afterWhitelistMark str) ''/''"
    and "\<not> (strings_HasPrefix (afterWhitelistMark str) ''/'' \<and>
            strings_HasSuffix (afterWhitelistMark str) ''/'')"
  shows "processLine str g =
           Inr (g\<lparr>ruleList := ruleList g @
                  [if strings_HasPrefix str ''@@''
                   then WhiteListRule (UrlWildcardRule (afterWhitelistMark str) False)
                   else UrlWildcardRule (afterWhitelistMark str) False]\<rparr>)"
proof -
  have "\<not> strings_HasPrefix (afterWhitelistMark str) ''||''"
    using assms(4) by (auto simp: strings_HasPrefix_iff)
  then have "buildRule (afterWhitelistMark str) =
      Inr (afterWhitelistMark str, UrlWildcardRule (afterWhitelistMark str) False, False)"
    using assms(4-6) by (auto simp: buildRule_def Let_def)
  then show ?thesis
    using assms(1-3) by (simp add: processLine_def afterWhitelistMark_def Let_def)
qed

lemma processLine_plain_host:
  assumes "length str \<noteq> 0" "\<not> strings_HasPrefix str ''!''" "\<not> strings_HasPrefix str ''[''"
    and "\<not> strings_HasPrefix (afterWhitelistMark str) ''|''"
    and "\<not> strings_Contains (afterWhitelistMark str) ''/''"
  shows "processLine str g =
           Inr (g\<lparr>ruleMap := (ruleMap g)(
                  (if strings_HasPrefix (afterWhitelistMark str) ''.''
                   then drop 1 (afterWhitelistMark str) else afterWhitelistMark str) \<mapsto>
                  (if strings_HasPrefix str ''@@''
                   then WhiteListRule (HostWildcardRule (afterWhitelistMark str))
                   else HostWildcardRule (afterWhitelistMark str)))\<rparr>)"
proof -
  have 1: "\<not> strings_HasPrefix (afterWhitelistMark str) ''||''"
    using assms(4) by (auto simp: strings_HasPrefix_iff)
  have 2: "\<not> strings_HasPrefix (afterWhitelistMark str) ''/''"
    using assms(5) strings_HasPrefix_Contains by blast
  have "buildRule (afterWhitelistMark str) =
      Inr ((if strings_HasPrefix (afterWhitelistMark str) ''.''
            then drop 1 (afterWhitelistMark str) else afterWhitelistMark str),
           HostWildcardRule (afterWhitelistMark str), True)"
    using 1 2 assms(4,5) by (simp add: buildRule_def Let_def)
  then show ?thesis
    using assms(1-3) by (simp add: processLine_def afterWhitelistMark_def Let_def)
qed

section \<open>Evaluating the sample library\<close>

lemmas sample_defs =
  sampleLib_def sample_Parse_def sample_String_def sample_Compile_def
  sample_SplitHostPort_def sample_TrimSpace_def asciiSpace_def simpleURL_def

section \<open>The properties\<close>

subsection \<open>C1: a rule found by the fast path decides alone\<close>

text \<open>
  Claim C1. When the URL parses and the lookup of the domain, or else of its root
  candidate, finds a rule in \<open>ruleMap\<close>, \<open>IsBlockedByGFW\<close> returns the negation of
  that rule's \<open>match\<close> when the rule is a \<open>whiteListRule\<close> and the \<open>match\<close> result
  itself otherwise. The answer and the lines logged are those of this one \<open>match\<close>,
  whatever list stands in \<open>ruleList\<close>: no rule of the fallback list is evaluated.
\<close>

theorem fast_path_hit_decides:
  assumes parse: "url_Parse E host = Inr u"
    and hit: "ruleMap gfw (stripPort E (Host u)) = Some rule \<or>
              (ruleMap gfw (stripPort E (Host u)) = None \<and>
               ruleMap gfw (rootDomainOf (stripPort E (Host u))) = Some rule)"
  shows "IsBlockedByGFW E (gfw\<lparr>ruleList := rules\<rparr>) host =
           (if isWhiteListRule rule then \<not> fst (match E rule u) else fst (match E rule u),
            snd (snd (match E rule u)))"
proof -
  from hit have "lookupRule E gfw u = Some rule"
    by (auto simp: lookupRule_def Let_def)
  then have look: "lookupRule E (gfw\<lparr>ruleList := rules\<rparr>) u = Some rule"
    by (simp add: lookupRule_ruleList)
  obtain m u' lg where m: "match E rule u = (m, u', lg)"
    by (cases "match E rule u") auto
  have "fastMatchDomain E (gfw\<lparr>ruleList := rules\<rparr>) u =
      ((if isWhiteListRule rule then \<not> m else m, True), u', lg)"
    by (simp add: fastMatchDomain_def look m)
  with parse m show ?thesis
    by (simp add: IsBlockedByGFW_def)
qed

text \<open>
  An instance: the host \<open>www.bbc.co.uk\<close> has no key of its own, its root candidate
  \<open>bbc.co.uk\<close> holds a whitelist rule that matches, so the answer is "not blocked"
  although the rule in \<open>ruleList\<close> would match.
\<close>

theorem fast_path_hit_decides_witness:
  "IsBlockedByGFW sampleLib
     \<lparr>fetchURL = [],
      ruleMap = [''bbc.co.uk'' \<mapsto> WhiteListRule (HostWildcardRule ''bbc.co.uk'')],
      ruleList = [UrlWildcardRule ''http://www.bbc'' True]\<rparr>
     ''http://www.bbc.co.uk'' = (False, [])"
proof -
  let ?u = "simpleURL ''http'' ''www.bbc.co.uk'' []"
  let ?g = "\<lparr>fetchURL = [],
      ruleMap = [''bbc.co.uk'' \<mapsto> WhiteListRule (HostWildcardRule ''bbc.co.uk'')],
      ruleList = []\<rparr>"
  have parse: "url_Parse sampleLib ''http://www.bbc.co.uk'' = Inr ?u"
    by (simp add: sample_defs)
  have strip: "stripPort sampleLib (Host ?u) = ''www.bbc.co.uk''"
    by (simp add: stripPort_def simpleURL_def strings_HasPrefix_def)
  have root: "rootDomainOf ''www.bbc.co.uk'' = ''bbc.co.uk''"
    by (simp add: rootDomainOf_def)
  have hit: "ruleMap ?g (stripPort sampleLib (Host ?u)) =
               Some (WhiteListRule (HostWildcardRule ''bbc.co.uk'')) \<or>
             (ruleMap ?g (stripPort sampleLib (Host ?u)) = None \<and>
              ruleMap ?g (rootDomainOf (stripPort sampleLib (Host ?u))) =
                Some (WhiteListRule (HostWildcardRule ''bbc.co.uk'')))"
    by (simp add: strip root)
  show ?thesis
    using fast_path_hit_decides [OF parse hit, of "[UrlWildcardRule ''http://www.bbc'' True]"]
    by (simp add: simpleURL_def strings_HasPrefix_def)
qed

subsection \<open>C2: the root candidate\<close>

text \<open>
  Claim C2. For a domain (port already stripped) that is absent from \<open>ruleMap\<close>, the
  key of the second lookup is the candidate the specification describes: the last two
  labels when there are more than two, the last three when moreover the second-to-last
  label is shorter than 4, and the domain itself when it has at most two labels.
\<close>

theorem root_candidate_as_specified:
  assumes "ruleMap gfw (stripPort E (Host u)) = None"
  shows "rootDomainOf (stripPort E (Host u)) = spec_rootCandidate (stripPort E (Host u)) \<and>
         lookupRule E gfw u = ruleMap gfw (spec_rootCandidate (stripPort E (Host u)))"
  using assms by (simp add: lookupRule_def Let_def rootDomainOf_spec)

text \<open>
  An instance with a short second-to-last label: \<open>www.bbc.co.uk\<close> gives
  \<open>bbc.co.uk\<close>.
\<close>

theorem root_candidate_as_specified_witness:
  "lookupRule sampleLib
     \<lparr>fetchURL = [], ruleMap = [''bbc.co.uk'' \<mapsto> HostWildcardRule ''bbc.co.uk''],
      ruleList = []\<rparr>
     (simpleURL ''http'' ''www.bbc.co.uk'' []) = Some (HostWildcardRule ''bbc.co.uk'') \<and>
   rootDomainOf ''www.bbc.co.uk'' = ''bbc.co.uk'' \<and>
   spec_rootCandidate ''www.bbc.co.uk'' = ''bbc.co.uk''"
proof -
  let ?u = "simpleURL ''http'' ''www.bbc.co.uk'' []"
  let ?g = "\<lparr>fetchURL = [], ruleMap = [''bbc.co.uk'' \<mapsto> HostWildcardRule ''bbc.co.uk''],
      ruleList = []\<rparr>"
  have strip: "stripPort sampleLib (Host ?u) = ''www.bbc.co.uk''"
    by (simp add: stripPort_def simpleURL_def strings_HasPrefix_def)
  have miss: "ruleMap ?g (stripPort sampleLib (Host ?u)) = None"
    by (simp add: strip)
  have spec: "spec_rootCandidate ''www.bbc.co.uk'' = ''bbc.co.uk''"
    by (simp add: spec_rootCandidate_def lastLabels_def)
  show ?thesis
    using root_candidate_as_specified [OF miss] by (simp add: strip spec)
qed

subsection \<open>C3: the fallback scan\<close>

text \<open>
  Claim C3. When the URL parses and neither the domain nor its root candidate is a key
  of \<open>ruleMap\<close>, the answer of \<open>IsBlockedByGFW\<close> is decided by the first rule of
  \<open>ruleList\<close>, in list order, whose \<open>match\<close> is true: false when that rule is a
  \<open>whiteListRule\<close>, true otherwise; and it is false when no rule matches.
\<close>

theorem fallback_first_match_decides:
  assumes parse: "url_Parse E host = Inr u"
    and miss1: "ruleMap gfw (stripPort E (Host u)) = None"
    and miss2: "ruleMap gfw (rootDomainOf (stripPort E (Host u))) = None"
  shows "fst (IsBlockedByGFW E gfw host) =
           (case find (\<lambda>rule. fst (match E rule u)) (ruleList gfw) of
              None \<Rightarrow> False
            | Some rule \<Rightarrow> \<not> isWhiteListRule rule)"
proof -
  have "lookupRule E gfw u = None"
    using miss1 miss2 by (simp add: lookupRule_def Let_def)
  then have "fastMatchDomain E gfw u = ((False, False), u, [])"
    by (simp add: fastMatchDomain_def)
  with parse have "IsBlockedByGFW E gfw host = scanRuleList E (ruleList gfw) u []"
    by (simp add: IsBlockedByGFW_def)
  then show ?thesis
    by (simp add: scanRuleList_find)
qed

text \<open>
  An instance: the first rule does not match, the second is a whitelist rule that
  matches, the third would match and block.
\<close>

theorem fallback_first_match_decides_witness:
  "fst (IsBlockedByGFW sampleLib
     \<lparr>fetchURL = [], ruleMap = Map.empty,
      ruleList = [UrlWildcardRule ''http://ads'' True,
                  WhiteListRule (UrlWildcardRule ''https://ads'' True),
                  UrlWildcardRule ''ads'' False]\<rparr>
     ''//ads.example.com/x'') = False"
proof -
  let ?u = "simpleURL [] ''ads.example.com'' ''/x''"
  let ?g = "\<lparr>fetchURL = [], ruleMap = Map.empty,
      ruleList = [UrlWildcardRule ''http://ads'' True,
                  WhiteListRule (UrlWildcardRule ''https://ads'' True),
                  UrlWildcardRule ''ads'' False]\<rparr>"
  have parse: "url_Parse sampleLib ''//ads.example.com/x'' = Inr ?u"
    by (simp add: sample_defs)
  have miss1: "ruleMap ?g (stripPort sampleLib (Host ?u)) = None" by simp
  have miss2: "ruleMap ?g (rootDomainOf (stripPort sampleLib (Host ?u))) = None" by simp
  show ?thesis
    using fallback_first_match_decides [OF parse miss1 miss2]
    by (simp add: sample_defs strings_HasPrefix_def)
qed

subsection \<open>C4: what the map and the list hold\<close>

text \<open>
  Claim C4, as the code has it. In every rule set the parser returns, each rule of
  \<open>ruleMap\<close> is a host rule, bare or whitelist-wrapped, and each rule of \<open>ruleList\<close> is
  a URL or regex rule, bare or whitelist-wrapped. A pattern of \<open>ruleMap\<close> that contains
  a slash comes from a line whose text, after an optional \<open>@@\<close>, is \<open>||\<close> followed by
  that pattern. A line with the \<open>||\<close> prefix is stored in \<open>ruleMap\<close> whatever follows
  the prefix; a line without \<open>|\<close> prefix that contains a slash and is not of the regex
  form is appended to \<open>ruleList\<close> as a URL substring rule.
\<close>

theorem exactIndex_holds_host_rules:
  assumes "parseGFWList E lines = Inr gfw"
  shows "(\<forall>key rule. ruleMap gfw key = Some rule \<longrightarrow>
            isHostWildcard rule \<and>
            (strings_Contains (patternOf rule) ''/'' \<longrightarrow>
               (\<exists>line \<in> set lines.
                  afterWhitelistMark (strings_TrimSpace E line) = ''||'' @ patternOf rule))) \<and>
         (\<forall>rule \<in> set (ruleList gfw). isUrlOrRegex rule) \<and>
         (length str1 \<noteq> 0 \<and> \<not> strings_HasPrefix str1 ''!'' \<and> \<not> strings_HasPrefix str1 ''['' \<and>
          strings_HasPrefix (afterWhitelistMark str1) ''||'' \<longrightarrow>
            processLine str1 g =
              Inr (g\<lparr>ruleMap := (ruleMap g)(drop 2 (afterWhitelistMark str1) \<mapsto>
                     (if strings_HasPrefix str1 ''@@''
                      then WhiteListRule (HostWildcardRule (drop 2 (afterWhitelistMark str1)))
                      else HostWildcardRule (drop 2 (afterWhitelistMark str1))))\<rparr>)) \<and>
         (length str2 \<noteq> 0 \<and> \<not> strings_HasPrefix str2 ''!'' \<and> \<not> strings_HasPrefix str2 ''['' \<and>
          \<not> strings_HasPrefix (afterWhitelistMark str2) ''|'' \<and>
          strings_Contains (afterWhitelistMark str2) ''/'' \<and>
          \<not> (strings_HasPrefix (afterWhitelistMark str2) ''/'' \<and>
             strings_HasSuffix (afterWhitelistMark str2) ''/'') \<longrightarrow>
            processLine str2 g =
              Inr (g\<lparr>ruleList := ruleList g @
                     [if strings_HasPrefix str2 ''@@''
                      then WhiteListRule (UrlWildcardRule (afterWhitelistMark str2) False)
                      else UrlWildcardRule (afterWhitelistMark str2) False]\<rparr>))"
  using parsed_ruleset_invariant [OF assms] processLine_anchored [of str1 g]
    processLine_with_path [of str2 g]
  by blast

text \<open>
  An instance with an anchored line that has a path, an unanchored one and a regex.
\<close>

theorem exactIndex_holds_host_rules_witness:
  "parseGFWList sampleLib [''||example.com/path'', ''@@example.com/path'', ''/ads/''] =
     Inr \<lparr>fetchURL = [],
          ruleMap = [''example.com/path'' \<mapsto> HostWildcardRule ''example.com/path''],
          ruleList = [WhiteListRule (UrlWildcardRule ''example.com/path'' False),
                      RegexRule ''ads'']\<rparr> \<and>
   isHostWildcard (HostWildcardRule ''example.com/path'') \<and>
   (\<exists>line \<in> set [''||example.com/path'', ''@@example.com/path'', ''/ads/''].
      afterWhitelistMark (strings_TrimSpace sampleLib line) = ''||example.com/path'') \<and>
   isUrlOrRegex (WhiteListRule (UrlWildcardRule ''example.com/path'' False)) \<and>
   isUrlOrRegex (RegexRule ''ads'') \<and>
   processLine ''||example.com/path'' \<lparr>fetchURL = [], ruleMap = Map.empty, ruleList = []\<rparr> =
     Inr \<lparr>fetchURL = [],
          ruleMap = [''example.com/path'' \<mapsto> HostWildcardRule ''example.com/path''],
          ruleList = []\<rparr> \<and>
   processLine ''@@example.com/path'' \<lparr>fetchURL = [], ruleMap = Map.empty, ruleList = []\<rparr> =
     Inr \<lparr>fetchURL = [], ruleMap = Map.empty,
          ruleList = [WhiteListRule (UrlWildcardRule ''example.com/path'' False)]\<rparr>"
proof -
  let ?L = "[''||example.com/path'', ''@@example.com/path'', ''/ads/'']"
  let ?G = "\<lparr>fetchURL = [],
          ruleMap = [''example.com/path'' \<mapsto> HostWildcardRule ''example.com/path''],
          ruleList = [WhiteListRule (UrlWildcardRule ''example.com/path'' False),
                      RegexRule ''ads'']\<rparr>"
  let ?Z = "\<lparr>fetchURL = [], ruleMap = Map.empty, ruleList = []\<rparr>"
  have p: "parseGFWList sampleLib ?L = Inr ?G"
    by (simp add: parseGFWList_def processLine_def buildRule_def Let_def strings_HasPrefix_def
      strings_HasSuffix_def sampleLib_def sample_TrimSpace_def asciiSpace_def)
  note T = exactIndex_holds_host_rules [OF p, of "''||example.com/path''" ?Z
      "''@@example.com/path''"]
  have a1: "afterWhitelistMark ''||example.com/path'' = ''||example.com/path''"
    and a2: "afterWhitelistMark ''@@example.com/path'' = ''example.com/path''"
    by (simp_all add: afterWhitelistMark_def strings_HasPrefix_def)
  have m: "ruleMap ?G ''example.com/path'' = Some (HostWildcardRule ''example.com/path'')"
    by simp
  from T m have c1: "isHostWildcard (HostWildcardRule ''example.com/path'') \<and>
    (strings_Contains (patternOf (HostWildcardRule ''example.com/path'')) ''/'' \<longrightarrow>
       (\<exists>line \<in> set ?L. afterWhitelistMark (strings_TrimSpace sampleLib line) =
           ''||'' @ patternOf (HostWildcardRule ''example.com/path'')))"
    by blast
  have "strings_Contains (patternOf (HostWildcardRule ''example.com/path'')) ''/''"
    by (simp add: strings_HasPrefix_def)
  with c1 have "\<exists>line \<in> set ?L.
      afterWhitelistMark (strings_TrimSpace sampleLib line) =
        ''||'' @ patternOf (HostWildcardRule ''example.com/path'')"
    by blast
  then have c1': "\<exists>line \<in> set ?L.
      afterWhitelistMark (strings_TrimSpace sampleLib line) = ''||example.com/path''"
    by simp
  from T have c2: "\<forall>rule \<in> set (ruleList ?G). isUrlOrRegex rule" by blast
  have h3: "length ''||example.com/path'' \<noteq> 0 \<and>
      \<not> strings_HasPrefix ''||example.com/path'' ''!'' \<and>
      \<not> strings_HasPrefix ''||example.com/path'' ''['' \<and>
      strings_HasPrefix (afterWhitelistMark ''||example.com/path'') ''||''"
    by (simp add: a1) (simp add: strings_HasPrefix_def)
  from T h3 have c3: "processLine ''||example.com/path'' ?Z =
     Inr \<lparr>fetchURL = [],
          ruleMap = [''example.com/path'' \<mapsto> HostWildcardRule ''example.com/path''],
          ruleList = []\<rparr>"
    by (simp add: a1 strings_HasPrefix_def)
  have h4: "length ''@@example.com/path'' \<noteq> 0 \<and>
      \<not> strings_HasPrefix ''@@example.com/path'' ''!'' \<and>
      \<not> strings_HasPrefix ''@@example.com/path'' ''['' \<and>
      \<not> strings_HasPrefix (afterWhitelistMark ''@@example.com/path'') ''|'' \<and>
      strings_Contains (afterWhitelistMark ''@@example.com/path'') ''/'' \<and>
      \<not> (strings_HasPrefix (afterWhitelistMark ''@@example.com/path'') ''/'' \<and>
         strings_HasSuffix (afterWhitelistMark ''@@example.com/path'') ''/'')"
    by (simp add: a2) (simp add: strings_HasPrefix_def)
  from T h4 have c4: "processLine ''@@example.com/path'' ?Z =
     Inr \<lparr>fetchURL = [], ruleMap = Map.empty,
          ruleList = [WhiteListRule (UrlWildcardRule ''example.com/path'' False)]\<rparr>"
    by (simp add: a2 strings_HasPrefix_def)
  from p c1 c1' c2 c3 c4 show ?thesis by simp
qed

text \<open>
  The claim as first stated fails: the line \<open>||example.com/path\<close> puts a host rule
  whose pattern contains a slash into \<open>ruleMap\<close>, not into \<open>ruleList\<close>, and the line
  \<open>|||example.com\<close> one whose pattern starts with the anchor character.
\<close>

theorem anchored_line_with_path_in_exactIndex:
  "parseGFWList sampleLib [''||example.com/path''] =
     Inr \<lparr>fetchURL = [],
          ruleMap = [''example.com/path'' \<mapsto> HostWildcardRule ''example.com/path''],
          ruleList = []\<rparr> \<and>
   strings_Contains (patternOf (HostWildcardRule ''example.com/path'')) ''/'' \<and>
   parseGFWList sampleLib [''|||example.com''] =
     Inr \<lparr>fetchURL = [],
          ruleMap = [''|example.com'' \<mapsto> HostWildcardRule ''|example.com''],
          ruleList = []\<rparr> \<and>
   strings_HasPrefix (patternOf (HostWildcardRule ''|example.com'')) ''|''"
  by (simp add: parseGFWList_def processLine_def buildRule_def Let_def strings_HasPrefix_def
      strings_HasSuffix_def sampleLib_def sample_TrimSpace_def asciiSpace_def)

subsection \<open>C5: an unanchored host line\<close>

text \<open>
  Claim C5, as the code has it. A line that is not skipped, has no \<open>@@\<close> and no
  \<open>|\<close> prefix and contains no slash is stored in \<open>ruleMap\<close> as a host rule whose
  pattern is the text of the line as it stands, under the key that is this text with
  one leading dot removed. Pattern and key are equal exactly when the text does not
  start with a dot.
\<close>

theorem plain_host_line_keeps_leading_dot:
  assumes trim: "strings_TrimSpace E line = str"
    and "length str \<noteq> 0" "\<not> strings_HasPrefix str ''!''" "\<not> strings_HasPrefix str ''[''"
    and "\<not> strings_HasPrefix str ''@@''"
    and "\<not> strings_HasPrefix str ''|''"
    and "\<not> strings_Contains str ''/''"
  shows "readLines E (line # lines) gfwList =
           readLines E lines
             (gfwList\<lparr>ruleMap := (ruleMap gfwList)(
                 (if strings_HasPrefix str ''.'' then drop 1 str else str) \<mapsto>
                 HostWildcardRule str)\<rparr>) \<and>
         ((if strings_HasPrefix str ''.'' then drop 1 str else str) = str
            \<longleftrightarrow> \<not> strings_HasPrefix str ''.'')"
proof -
  have a: "afterWhitelistMark str = str"
    using assms(5) by (simp add: afterWhitelistMark_def)
  have "processLine str gfwList =
          Inr (gfwList\<lparr>ruleMap := (ruleMap gfwList)(
                 (if strings_HasPrefix str ''.'' then drop 1 str else str) \<mapsto>
                 HostWildcardRule str)\<rparr>)"
    using processLine_plain_host [of str gfwList] assms(2-7) by (simp add: a)
  moreover have "drop 1 str \<noteq> str"
    using assms(2) by (cases str) (auto dest: arg_cong [where f = length])
  ultimately show ?thesis
    using trim by simp
qed

text \<open>
  An instance: one line with a leading dot, one without.
\<close>

theorem plain_host_line_keeps_leading_dot_witness:
  "parseGFWList sampleLib [''.example.com'', ''example.org''] =
     Inr \<lparr>fetchURL = [],
          ruleMap = [''example.com'' \<mapsto> HostWildcardRule ''.example.com'',
                     ''example.org'' \<mapsto> HostWildcardRule ''example.org''],
          ruleList = []\<rparr>"
proof -
  have t1: "strings_TrimSpace sampleLib ''.example.com'' = ''.example.com''"
    and t2: "strings_TrimSpace sampleLib ''example.org'' = ''example.org''"
    by (simp_all add: sampleLib_def sample_TrimSpace_def asciiSpace_def)
  have s1: "readLines sampleLib (''.example.com'' # [''example.org''])
              \<lparr>fetchURL = [], ruleMap = Map.empty, ruleList = []\<rparr> =
            readLines sampleLib [''example.org'']
              \<lparr>fetchURL = [], ruleMap = [''example.com'' \<mapsto> HostWildcardRule ''.example.com''],
               ruleList = []\<rparr>"
    using plain_host_line_keeps_leading_dot [OF t1, of "[''example.org'']"
        "\<lparr>fetchURL = [], ruleMap = Map.empty, ruleList = []\<rparr>"]
    by (simp add: strings_HasPrefix_def)
  have s2: "readLines sampleLib (''example.org'' # [])
              \<lparr>fetchURL = [], ruleMap = [''example.com'' \<mapsto> HostWildcardRule ''.example.com''],
               ruleList = []\<rparr> =
            readLines sampleLib []
              \<lparr>fetchURL = [],
               ruleMap = [''example.com'' \<mapsto> HostWildcardRule ''.example.com'',
                          ''example.org'' \<mapsto> HostWildcardRule ''example.org''],
               ruleList = []\<rparr>"
    using plain_host_line_keeps_leading_dot [OF t2, of "[]"
        "\<lparr>fetchURL = [], ruleMap = [''example.com'' \<mapsto> HostWildcardRule ''.example.com''],
               ruleList = []\<rparr>"]
    by (simp add: strings_HasPrefix_def)
  show ?thesis
    unfolding parseGFWList_def s1 s2 by simp
qed

text \<open>
  The claim as first stated fails: for the line \<open>.example.com\<close> the rule stored under
  \<open>example.com\<close> keeps the pattern \<open>.example.com\<close>.
\<close>

theorem stored_pattern_differs_from_key:
  "parseGFWList sampleLib [''.example.com''] =
     Inr \<lparr>fetchURL = [],
          ruleMap = [''example.com'' \<mapsto> HostWildcardRule ''.example.com''],
          ruleList = []\<rparr> \<and>
   patternOf (HostWildcardRule ''.example.com'') \<noteq> ''example.com''"
  by (simp add: parseGFWList_def processLine_def buildRule_def Let_def strings_HasPrefix_def
      strings_HasSuffix_def sampleLib_def sample_TrimSpace_def asciiSpace_def)

subsection \<open>C6: an input that does not parse\<close>

text \<open>
  Claim C6. When \<open>url.Parse\<close> fails on the input, \<open>IsBlockedByGFW\<close> returns false,
  for every rule set, and logs nothing.
\<close>

theorem parse_failure_not_blocked:
  assumes "url_Parse E host = Inl err"
  shows "IsBlockedByGFW E gfw host = (False, [])"
  using assms by (simp add: IsBlockedByGFW_def)

text \<open>
  An instance: \<open>:foo\<close> does not parse, and the rule set would block everything.
\<close>

theorem parse_failure_not_blocked_witness:
  "IsBlockedByGFW sampleLib
     \<lparr>fetchURL = [], ruleMap = [[] \<mapsto> HostWildcardRule []],
      ruleList = [UrlWildcardRule [] False]\<rparr> '':foo'' = (False, [])"
proof -
  have "url_Parse sampleLib '':foo'' = Inl ''missing protocol scheme''"
    by (simp add: sample_defs)
  then show ?thesis by (rule parse_failure_not_blocked)
qed

subsection \<open>C7: a regex that does not compile\<close>

text \<open>
  Claim C7. When the pattern of a regex rule does not compile, its \<open>match\<close> logs the
  failure and returns false on every URL; the result is an ordinary boolean, and the scan
  of \<open>IsBlockedByGFW\<close> goes on with the next rule.
\<close>

theorem invalid_regex_never_matches:
  assumes "regexp_Compile E pattern = Inl err"
  shows "match E (RegexRule pattern) u =
           (False, (if length (Scheme u) = 0 then u\<lparr>Scheme := ''https''\<rparr> else u),
            [invalidRegexMessage pattern err]) \<and>
         scanRuleList E (RegexRule pattern # rules) u logged =
           scanRuleList E rules (if length (Scheme u) = 0 then u\<lparr>Scheme := ''https''\<rparr> else u)
             (logged @ [invalidRegexMessage pattern err])"
  using assms by (simp add: regexp_MatchString_def Let_def)

text \<open>
  An instance: the pattern \<open>[\<close> as the only rule.
\<close>

theorem invalid_regex_never_matches_witness:
  "IsBlockedByGFW sampleLib
     \<lparr>fetchURL = [], ruleMap = Map.empty, ruleList = [RegexRule ''['']\<rparr>
     ''http://ads.example.com/x'' =
     (False, [invalidRegexMessage ''[''
        (''error parsing regexp: missing closing ]: '' @ [CHR 0x60] @ ''['' @ [CHR 0x60])])"
proof -
  let ?err = "''error parsing regexp: missing closing ]: '' @ [CHR 0x60] @ ''['' @ [CHR 0x60]"
  let ?u = "simpleURL ''http'' ''ads.example.com'' ''/x''"
  have c: "regexp_Compile sampleLib ''['' = Inl ?err"
    by (simp add: sampleLib_def sample_Compile_def)
  have parse: "url_Parse sampleLib ''http://ads.example.com/x'' = Inr ?u"
    by (simp add: sample_defs)
  have look: "lookupRule sampleLib
      \<lparr>fetchURL = [], ruleMap = Map.empty, ruleList = [RegexRule ''['']\<rparr> ?u = None"
    by (simp add: lookupRule_def)
  have scan: "scanRuleList sampleLib [RegexRule ''['']  ?u [] =
     (False, [invalidRegexMessage ''['' ?err])"
    using invalid_regex_never_matches [OF c, of ?u "[]" "[]"]
    by (simp add: simpleURL_def)
  show ?thesis
    by (simp only: IsBlockedByGFW_def parse fastMatchDomain_def look scan
        sum.case option.case prod.case GFWList.select_convs if_False)
qed

subsection \<open>C8: the example of the specification\<close>

text \<open>
  Claim C8. For the rule set parsed from the lines \<open>||example.com\<close> and
  \<open>@@||safe.example.com\<close>, the input \<open>http://sub.safe.example.com\<close> has no key of its
  own, its root candidate is \<open>example.com\<close>, the rule found there is the host rule of
  the first line, and the answer is true. The facts used of Go's library are that
  trimming leaves the two lines as they are and that the parsed URL has the host
  \<open>sub.safe.example.com\<close>.
\<close>

theorem sub_safe_example_blocked:
  assumes t1: "strings_TrimSpace E ''||example.com'' = ''||example.com''"
    and t2: "strings_TrimSpace E ''@@||safe.example.com'' = ''@@||safe.example.com''"
    and parse: "url_Parse E ''http://sub.safe.example.com'' = Inr u"
    and host: "Host u = ''sub.safe.example.com''"
  shows "parseGFWList E [''||example.com'', ''@@||safe.example.com''] =
           Inr \<lparr>fetchURL = [],
                ruleMap = [''example.com'' \<mapsto> HostWildcardRule ''example.com'',
                           ''safe.example.com'' \<mapsto>
                             WhiteListRule (HostWildcardRule ''safe.example.com'')],
                ruleList = []\<rparr> \<and>
         stripPort E (Host u) = ''sub.safe.example.com'' \<and>
         rootDomainOf ''sub.safe.example.com'' = ''example.com'' \<and>
         lookupRule E
           \<lparr>fetchURL = [],
            ruleMap = [''example.com'' \<mapsto> HostWildcardRule ''example.com'',
                       ''safe.example.com'' \<mapsto>
                         WhiteListRule (HostWildcardRule ''safe.example.com'')],
            ruleList = []\<rparr> u = Some (HostWildcardRule ''example.com'') \<and>
         IsBlockedByGFW E
           \<lparr>fetchURL = [],
            ruleMap = [''example.com'' \<mapsto> HostWildcardRule ''example.com'',
                       ''safe.example.com'' \<mapsto>
                         WhiteListRule (HostWildcardRule ''safe.example.com'')],
            ruleList = []\<rparr> ''http://sub.safe.example.com'' = (True, [])"
proof -
  let ?g = "\<lparr>fetchURL = [],
            ruleMap = [''example.com'' \<mapsto> HostWildcardRule ''example.com'',
                       ''safe.example.com'' \<mapsto>
                         WhiteListRule (HostWildcardRule ''safe.example.com'')],
            ruleList = []\<rparr>"
  have p: "parseGFWList E [''||example.com'', ''@@||safe.example.com''] = Inr ?g"
    by (simp add: parseGFWList_def t1 t2 processLine_def buildRule_def Let_def
        strings_HasPrefix_def strings_HasSuffix_def)
  have s: "stripPort E (Host u) = ''sub.safe.example.com''"
    by (simp add: stripPort_def host strings_HasPrefix_def)
  have r: "rootDomainOf ''sub.safe.example.com'' = ''example.com''"
    by (simp add: rootDomainOf_def)
  have l: "lookupRule E ?g u = Some (HostWildcardRule ''example.com'')"
    by (simp add: lookupRule_def s r)
  have m: "match E (HostWildcardRule ''example.com'') u = (True, u, [])"
    by (simp add: host strings_HasPrefix_def)
  have f: "fastMatchDomain E ?g u = ((True, True), u, [])"
    by (simp only: fastMatchDomain_def l m option.case prod.case isWhiteListRule.simps if_False)
  have b: "IsBlockedByGFW E ?g ''http://sub.safe.example.com'' = (True, [])"
    by (simp only: IsBlockedByGFW_def parse f sum.case prod.case if_True)
  from p s r l b show ?thesis by simp
qed

text \<open>
  The same on the sample library.
\<close>

theorem sub_safe_example_blocked_witness:
  "IsBlockedByGFW sampleLib
     \<lparr>fetchURL = [],
      ruleMap = [''example.com'' \<mapsto> HostWildcardRule ''example.com'',
                 ''safe.example.com'' \<mapsto>
                   WhiteListRule (HostWildcardRule ''safe.example.com'')],
      ruleList = []\<rparr> ''http://sub.safe.example.com'' = (True, [])"
proof -
  have t1: "strings_TrimSpace sampleLib ''||example.com'' = ''||example.com''"
    and t2: "strings_TrimSpace sampleLib ''@@||safe.example.com'' = ''@@||safe.example.com''"
    by (simp_all add: sampleLib_def sample_TrimSpace_def asciiSpace_def)
  have parse: "url_Parse sampleLib ''http://sub.safe.example.com'' =
                 Inr (simpleURL ''http'' ''sub.safe.example.com'' [])"
    by (simp add: sampleLib_def sample_Parse_def)
  have host: "Host (simpleURL ''http'' ''sub.safe.example.com'' []) = ''sub.safe.example.com''"
    by (simp add: simpleURL_def)
  from sub_safe_example_blocked [OF t1 t2 parse host] show ?thesis by blast
qed

subsection \<open>C9: who changes the URL\<close>

text \<open>
  Claim C9. The \<open>match\<close> of a URL wildcard rule (prefix or substring) and of a regex
  rule leaves the URL with its scheme set to \<open>https\<close> when the scheme was empty and
  unchanged otherwise, no other field is touched, and the string tested is that of the
  URL after this step. The \<open>match\<close> of a host rule leaves the URL as it is, and its
  result is a function of the host field alone.
\<close>

theorem scheme_default_only_in_url_rules:
  "fst (snd (match E (UrlWildcardRule pattern prefixMatch) u)) =
     (if Scheme u = [] then u\<lparr>Scheme := ''https''\<rparr> else u) \<and>
   fst (snd (match E (RegexRule pattern) u)) =
     (if Scheme u = [] then u\<lparr>Scheme := ''https''\<rparr> else u) \<and>
   fst (match E (UrlWildcardRule pattern True) u) =
     strings_HasPrefix
       (url_String E (if Scheme u = [] then u\<lparr>Scheme := ''https''\<rparr> else u)) pattern \<and>
   fst (match E (UrlWildcardRule pattern False) u) =
     strings_Contains
       (url_String E (if Scheme u = [] then u\<lparr>Scheme := ''https''\<rparr> else u)) pattern \<and>
   fst (match E (RegexRule pattern) u) =
     fst (regexp_MatchString E pattern
       (url_String E (if Scheme u = [] then u\<lparr>Scheme := ''https''\<rparr> else u))) \<and>
   match E (HostWildcardRule pattern) u = (strings_Contains (Host u) pattern, u, []) \<and>
   (Host u' = Host u \<longrightarrow>
      fst (match E' (HostWildcardRule pattern) u') = fst (match E (HostWildcardRule pattern) u))"
  by (simp add: Let_def split: prod.splits option.splits)

text \<open>
  An instance: a URL without scheme and one with scheme \<open>http\<close>.
\<close>

theorem scheme_default_only_in_url_rules_witness:
  "match sampleLib (UrlWildcardRule ''https://ads'' True) (simpleURL [] ''ads.example.com'' ''/x'') =
     (True, simpleURL ''https'' ''ads.example.com'' ''/x'', []) \<and>
   match sampleLib (UrlWildcardRule ''https://ads'' True) (simpleURL ''http'' ''ads.example.com'' ''/x'') =
     (False, simpleURL ''http'' ''ads.example.com'' ''/x'', []) \<and>
   fst (match sampleLib (HostWildcardRule ''ads.'') (simpleURL [] ''ads.example.com'' ''/x'')) =
   fst (match sampleLib (HostWildcardRule ''ads.'') (simpleURL ''http'' ''ads.example.com'' []))"
proof -
  have h: "Host (simpleURL [] ''ads.example.com'' ''/x'') =
           Host (simpleURL ''http'' ''ads.example.com'' [])"
    by (simp add: simpleURL_def)
  note T1 = scheme_default_only_in_url_rules
    [of sampleLib "''https://ads''" True "simpleURL [] ''ads.example.com'' ''/x''"]
  note T2 = scheme_default_only_in_url_rules
    [of sampleLib "''ads.''" True "simpleURL ''http'' ''ads.example.com'' []"
        "simpleURL [] ''ads.example.com'' ''/x''" sampleLib]
  have a: "match sampleLib (UrlWildcardRule ''https://ads'' True)
             (simpleURL [] ''ads.example.com'' ''/x'') =
           (True, simpleURL ''https'' ''ads.example.com'' ''/x'', [])"
    using T1 by (simp add: simpleURL_def sampleLib_def sample_String_def strings_HasPrefix_def)
  have b: "match sampleLib (UrlWildcardRule ''https://ads'' True)
             (simpleURL ''http'' ''ads.example.com'' ''/x'') =
           (False, simpleURL ''http'' ''ads.example.com'' ''/x'', [])"
    by (simp add: simpleURL_def sampleLib_def sample_String_def strings_HasPrefix_def)
  from T2 h have c: "fst (match sampleLib (HostWildcardRule ''ads.'')
                            (simpleURL [] ''ads.example.com'' ''/x'')) =
      fst (match sampleLib (HostWildcardRule ''ads.'') (simpleURL ''http'' ''ads.example.com'' []))"
    by blast
  from a b c show ?thesis by blast
qed

subsection \<open>C10: the empty pattern\<close>

text \<open>
  Claim C10, as the code has it. A host rule with the empty pattern matches every URL.
  From a line that is \<open>||\<close> after trimming the parser stores this rule under the empty
  key; from a line that is \<open>@@\<close> it stores this rule wrapped in a \<open>whiteListRule\<close>
  under the empty key. For an input whose domain key is empty the stored rule decides:
  the answer is true for the bare rule and false for the wrapped one.
\<close>

theorem empty_pattern_rule_decides_empty_key:
  "match E (HostWildcardRule []) u = (True, u, []) \<and>
   (strings_TrimSpace E line1 = ''||'' \<longrightarrow>
      readLines E (line1 # lines) gfwList =
        readLines E lines (gfwList\<lparr>ruleMap := (ruleMap gfwList)([] \<mapsto> HostWildcardRule [])\<rparr>)) \<and>
   (strings_TrimSpace E line2 = ''@@'' \<longrightarrow>
      readLines E (line2 # lines) gfwList =
        readLines E lines
          (gfwList\<lparr>ruleMap := (ruleMap gfwList)([] \<mapsto> WhiteListRule (HostWildcardRule []))\<rparr>)) \<and>
   (url_Parse E host = Inr v \<and> stripPort E (Host v) = [] \<and>
    ruleMap gfw [] = Some (HostWildcardRule []) \<longrightarrow>
      IsBlockedByGFW E gfw host = (True, [])) \<and>
   (url_Parse E host = Inr v \<and> stripPort E (Host v) = [] \<and>
    ruleMap gfw [] = Some (WhiteListRule (HostWildcardRule [])) \<longrightarrow>
      IsBlockedByGFW E gfw host = (False, []))"
proof -
  have m: "match E (HostWildcardRule []) u = (True, u, [])" by simp
  have l1: "processLine ''||'' gfwList =
      Inr (gfwList\<lparr>ruleMap := (ruleMap gfwList)([] \<mapsto> HostWildcardRule [])\<rparr>)"
    by (simp add: processLine_def buildRule_def Let_def strings_HasPrefix_def
        strings_HasSuffix_def)
  have l2: "processLine ''@@'' gfwList =
      Inr (gfwList\<lparr>ruleMap := (ruleMap gfwList)([] \<mapsto> WhiteListRule (HostWildcardRule []))\<rparr>)"
    by (simp add: processLine_def buildRule_def Let_def strings_HasPrefix_def
        strings_HasSuffix_def)
  have d: "IsBlockedByGFW E gfw host = (\<not> isWhiteListRule rule, [])"
    if "url_Parse E host = Inr v" "stripPort E (Host v) = []" "ruleMap gfw [] = Some rule"
      "rule = HostWildcardRule [] \<or> rule = WhiteListRule (HostWildcardRule [])" for rule
  proof -
    have l: "lookupRule E gfw v = Some rule"
      using that by (simp add: lookupRule_def)
    have mr: "match E rule v = (True, v, [])"
      using that(4) by auto
    have "fastMatchDomain E gfw v = ((\<not> isWhiteListRule rule, True), v, [])"
      by (simp add: fastMatchDomain_def l mr)
    then show ?thesis
      using that(1) by (simp add: IsBlockedByGFW_def)
  qed
  show ?thesis
    using m l1 l2 d [of "HostWildcardRule []"] d [of "WhiteListRule (HostWildcardRule [])"]
    by simp
qed

text \<open>
  An instance: the input \<open>example.com\<close> has no scheme, so its host and its domain
  key are empty.
\<close>

theorem empty_pattern_rule_decides_empty_key_witness:
  "parseGFWList sampleLib ['' || ''] =
     Inr \<lparr>fetchURL = [], ruleMap = [[] \<mapsto> HostWildcardRule []], ruleList = []\<rparr> \<and>
   parseGFWList sampleLib [''@@''] =
     Inr \<lparr>fetchURL = [], ruleMap = [[] \<mapsto> WhiteListRule (HostWildcardRule [])],
          ruleList = []\<rparr> \<and>
   IsBlockedByGFW sampleLib
     \<lparr>fetchURL = [], ruleMap = [[] \<mapsto> HostWildcardRule []], ruleList = []\<rparr>
     ''example.com'' = (True, []) \<and>
   IsBlockedByGFW sampleLib
     \<lparr>fetchURL = [], ruleMap = [[] \<mapsto> WhiteListRule (HostWildcardRule [])], ruleList = []\<rparr>
     ''example.com'' = (False, [])"
proof -
  let ?Z = "\<lparr>fetchURL = [], ruleMap = Map.empty, ruleList = []\<rparr>"
  let ?v = "simpleURL [] [] ''example.com''"
  have t1: "strings_TrimSpace sampleLib '' || '' = ''||''"
    and t2: "strings_TrimSpace sampleLib ''@@'' = ''@@''"
    by (simp_all add: sampleLib_def sample_TrimSpace_def asciiSpace_def)
  have parse: "url_Parse sampleLib ''example.com'' = Inr ?v"
    by (simp add: sampleLib_def sample_Parse_def)
  have strip: "stripPort sampleLib (Host ?v) = []"
    by (simp add: stripPort_def simpleURL_def)
  note A = empty_pattern_rule_decides_empty_key
    [of sampleLib ?v "'' || ''" "[]" ?Z "''@@''" "''example.com''" ?v
        "\<lparr>fetchURL = [], ruleMap = [[] \<mapsto> HostWildcardRule []], ruleList = []\<rparr>"]
  note B = empty_pattern_rule_decides_empty_key
    [of sampleLib ?v "'' || ''" "[]" ?Z "''@@''" "''example.com''" ?v
        "\<lparr>fetchURL = [], ruleMap = [[] \<mapsto> WhiteListRule (HostWildcardRule [])],
          ruleList = []\<rparr>"]
  from A t1 have a: "parseGFWList sampleLib ['' || ''] =
     Inr \<lparr>fetchURL = [], ruleMap = [[] \<mapsto> HostWildcardRule []], ruleList = []\<rparr>"
    by (simp add: parseGFWList_def)
  from A t2 have b: "parseGFWList sampleLib [''@@''] =
     Inr \<lparr>fetchURL = [], ruleMap = [[] \<mapsto> WhiteListRule (HostWildcardRule [])],
          ruleList = []\<rparr>"
    by (simp add: parseGFWList_def)
  from A parse strip have c: "IsBlockedByGFW sampleLib
     \<lparr>fetchURL = [], ruleMap = [[] \<mapsto> HostWildcardRule []], ruleList = []\<rparr>
     ''example.com'' = (True, [])"
    by simp
  from B parse strip have d: "IsBlockedByGFW sampleLib
     \<lparr>fetchURL = [], ruleMap = [[] \<mapsto> WhiteListRule (HostWildcardRule [])], ruleList = []\<rparr>
     ''example.com'' = (False, [])"
    by simp
  from a b c d show ?thesis by blast
qed

text \<open>
  The claim as first stated fails for the line \<open>@@\<close>: the rule stored under the
  empty key is the wrapper, not a host rule, and the answer for such an input is "not
  blocked".
\<close>

theorem whitelist_mark_alone_stores_wrapped_rule:
  "parseGFWList sampleLib [''@@''] =
     Inr \<lparr>fetchURL = [], ruleMap = [[] \<mapsto> WhiteListRule (HostWildcardRule [])],
          ruleList = []\<rparr> \<and>
   WhiteListRule (HostWildcardRule []) \<noteq> HostWildcardRule [] \<and>
   IsBlockedByGFW sampleLib
     \<lparr>fetchURL = [], ruleMap = [[] \<mapsto> WhiteListRule (HostWildcardRule [])], ruleList = []\<rparr>
     ''example.com'' = (False, [])"
  by (simp add: parseGFWList_def processLine_def buildRule_def Let_def strings_HasPrefix_def
      strings_HasSuffix_def sampleLib_def sample_TrimSpace_def asciiSpace_def
      IsBlockedByGFW_def sample_Parse_def simpleURL_def fastMatchDomain_def lookupRule_def
      stripPort_def)

end
